theory Spec2Isabelle
  imports Main "HOL-Library.Sublist"
begin

section \<open>The user registry command line (app/cli.py)\<close>

text \<open>
  The repository is one module, \<^verbatim>\<open>app/cli.py\<close>: eight commands over a single table of
  users. Each command opens a session, runs one query or one mutation, prints, and leaves
  the \<^verbatim>\<open>with\<close> block. The embedding keeps that shape: a command is a function from
  the store before to the store after, paired with what the command printed or with the
  exception that left it uncaught.
\<close>

subsection \<open>Data model\<close>

text \<open>
  Modelled from the spec: the \<^verbatim>\<open>User\<close> class of \<^verbatim>\<open>app/models.py\<close>, which is not
  part of the sources at hand. Section 3 of the specification gives its four columns: a
  surrogate integer key generated by the store on insert, and three strings, of which
  \<^verbatim>\<open>username\<close> and \<^verbatim>\<open>email\<close> are unique across the table. An object built by
  \<^verbatim>\<open>User(username=..., email=..., password=...)\<close> has no key yet, hence the option.
\<close>

record User =
  user_id :: "nat option"
  username :: string
  email :: string
  password :: string

text \<open>
  The exceptions of the persistence library that the commands can meet:
  \<^verbatim>\<open>IntegrityError\<close> (a uniqueness constraint refused a write; the only one
  \<^verbatim>\<open>cli.py\<close> names), \<^verbatim>\<open>OperationalError\<close> (a statement against a table that does
  not exist), \<^verbatim>\<open>InvalidRequestError\<close> (a refresh of an object that has no row) and
  \<^verbatim>\<open>OverflowError\<close> (an integer argument that does not fit the store's 64-bit
  integers).
\<close>

datatype error = IntegrityError | OperationalError | InvalidRequestError | OverflowError

text \<open>
  The store is the table in storage order, or \<open>None\<close> where the schema has not been
  created (or has been dropped).
\<close>

type_synonym store = "User list option"

text \<open>
  A printed line is kept as its pieces: literal text, a user object formatted by
  \<^verbatim>\<open>print(user)\<close> or inside an f-string (its rendering belongs to the absent model
  class), and a formatted integer.
\<close>

datatype piece = Str string | Obj User | Num int

type_synonym line = "piece list"

type_synonym outcome = "error + line list"

subsection \<open>Session provider and schema manager\<close>

text \<open>
  The session of the persistence library, as far as \<^verbatim>\<open>cli.py\<close> uses it: it is bound
  to the store and collects the changes that the next commit will write.
\<close>

datatype change = Insert User | Update User | Delete User

record session =
  bind :: store
  pending :: "change list"

text \<open>
  Modelled from the spec: \<^verbatim>\<open>get_session\<close> of \<^verbatim>\<open>app/database.py\<close>, which is not
  part of the sources at hand. Section 4.1: it opens one scope over the store, never commits
  by itself, and on every way out of the \<^verbatim>\<open>with\<close> block the scope is closed and what
  was not committed is discarded.
\<close>

definition get_session :: "store \<Rightarrow> session" where
  "get_session st = \<lparr>bind = st, pending = []\<rparr>"

definition close :: "session \<Rightarrow> store" where
  "close s = bind s"

definition with_session ::
  "store \<Rightarrow> (session \<Rightarrow> session \<times> outcome) \<Rightarrow> store \<times> outcome" where
  "with_session st body = (case body (get_session st) of (s, r) \<Rightarrow> (close s, r))"

text \<open>
  Modelled from the spec: \<^verbatim>\<open>drop_all\<close> of \<^verbatim>\<open>app/database.py\<close>, which is not part
  of the sources at hand. Section 4.2: it deletes the table, and succeeds when there is
  none.
\<close>

definition drop_all :: "store \<Rightarrow> store" where
  "drop_all st = None"

text \<open>
  Modelled from the spec: \<^verbatim>\<open>create_db_and_tables\<close> of \<^verbatim>\<open>app/database.py\<close>, which
  is not part of the sources at hand. Section 4.2: it creates the table when absent, empty,
  and leaves an existing table untouched.
\<close>

definition create_db_and_tables :: "store \<Rightarrow> store" where
  "create_db_and_tables st = (case st of None \<Rightarrow> Some [] | Some rows \<Rightarrow> Some rows)"

text \<open>
  Modelled from the spec: the key of a new row is generated by the store on insert
  (section 3). Here it is one more than the largest key in the table, so 1 in an empty
  table.
\<close>

definition key_of :: "User \<Rightarrow> nat" where
  "key_of r = (case user_id r of None \<Rightarrow> 0 | Some i \<Rightarrow> i)"

definition fresh_id :: "User list \<Rightarrow> nat" where
  "fresh_id rows = Suc (fold max (map key_of rows) 0)"

text \<open>
  Modelled from the spec: the uniqueness constraints that \<^verbatim>\<open>app/models.py\<close> declares
  on \<^verbatim>\<open>username\<close> and on \<^verbatim>\<open>email\<close> (section 3), checked against every row other
  than the one being written.
\<close>

definition taken :: "User list \<Rightarrow> User \<Rightarrow> bool" where
  "taken rows u =
     (\<exists>r \<in> set rows. user_id r \<noteq> user_id u \<and> (username r = username u \<or> email r = email u))"

fun apply_change :: "User list \<Rightarrow> change \<Rightarrow> error + User list" where
  "apply_change rows (Insert u) =
     (let u' = u\<lparr>user_id := Some (fresh_id rows)\<rparr>
      in if taken rows u' then Inl IntegrityError else Inr (rows @ [u']))"
| "apply_change rows (Update u) =
     (if taken rows u then Inl IntegrityError
      else Inr (map (\<lambda>r. if user_id r = user_id u then u else r) rows))"
| "apply_change rows (Delete u) = Inr (filter (\<lambda>r. user_id r \<noteq> user_id u) rows)"

fun flush :: "change list \<Rightarrow> User list \<Rightarrow> error + User list" where
  "flush [] rows = Inr rows"
| "flush (c # cs) rows =
     (case apply_change rows c of Inl e \<Rightarrow> Inl e | Inr rows' \<Rightarrow> flush cs rows')"

text \<open>
  \<^verbatim>\<open>db.add(obj)\<close>: an object without a key is new and will be inserted; an object read
  from the table is already attached, and its changed attributes will be written back.
\<close>

definition db_add :: "User \<Rightarrow> session \<Rightarrow> session" where
  "db_add u s =
     s\<lparr>pending := pending s @ [case user_id u of None \<Rightarrow> Insert u | Some i \<Rightarrow> Update u]\<rparr>"

definition db_delete :: "User \<Rightarrow> session \<Rightarrow> session" where
  "db_delete u s = s\<lparr>pending := pending s @ [Delete u]\<rparr>"

text \<open>
  \<^verbatim>\<open>db.commit()\<close> writes the pending changes in one transaction: all of them, or, when
  one is refused, none, and the exception is raised with the session left as it was.
\<close>

definition db_commit :: "session \<Rightarrow> error + session" where
  "db_commit s =
     (case bind s of
        None \<Rightarrow> if pending s = [] then Inr s else Inl OperationalError
      | Some rows \<Rightarrow>
          (case flush (pending s) rows of
             Inl e \<Rightarrow> Inl e
           | Inr rows' \<Rightarrow> Inr \<lparr>bind = Some rows', pending = []\<rparr>))"

definition db_rollback :: "session \<Rightarrow> session" where
  "db_rollback s = s\<lparr>pending := []\<rparr>"

definition first :: "'a list \<Rightarrow> 'a option" where
  "first xs = (case xs of [] \<Rightarrow> None | x # _ \<Rightarrow> Some x)"

text \<open>
  \<^verbatim>\<open>db.refresh(obj)\<close> reads the object's row again. Objects are values here, so the row
  of an object that was just inserted is found by its other columns; the object has no
  row when there is none.
\<close>

definition db_refresh :: "User \<Rightarrow> session \<Rightarrow> error + User" where
  "db_refresh u s =
     (case bind s of
        None \<Rightarrow> Inl OperationalError
      | Some rows \<Rightarrow>
          (case first (filter (\<lambda>r. r\<lparr>user_id := user_id u\<rparr> = u) rows) of
             None \<Rightarrow> Inl InvalidRequestError
           | Some r \<Rightarrow> Inr r))"

text \<open>
  \<^verbatim>\<open>db.exec(select(User).where(P)).all()\<close>: the rows that satisfy \<open>P\<close>, in storage
  order. (Every query of \<^verbatim>\<open>cli.py\<close> runs on a session with nothing pending.)
\<close>

definition db_exec :: "(User \<Rightarrow> bool) \<Rightarrow> session \<Rightarrow> error + User list" where
  "db_exec P s =
     (case bind s of None \<Rightarrow> Inl OperationalError | Some rows \<Rightarrow> Inr (filter P rows))"

subsection \<open>The commands\<close>

definition bob :: User where
  "bob = \<lparr>user_id = None, username = ''bob'', email = ''bob@mail.com'', password = ''bobpass''\<rparr>"

definition initialize :: "store \<Rightarrow> store \<times> outcome" where
  "initialize st = with_session st (\<lambda>db.
     let db1 = db\<lparr>bind := drop_all (bind db)\<rparr>;
         db2 = db1\<lparr>bind := create_db_and_tables (bind db1)\<rparr>;
         db3 = db_add bob db2
     in case db_commit db3 of
          Inl e \<Rightarrow> (db3, Inl e)
        | Inr db4 \<Rightarrow>
            (case db_refresh bob db4 of
               Inl e \<Rightarrow> (db4, Inl e)
             | Inr bob' \<Rightarrow> (db4, Inr [[Str ''Database Initialized'']])))"

definition get_user :: "string \<Rightarrow> store \<Rightarrow> store \<times> outcome" where
  "get_user uname st = with_session st (\<lambda>db.
     case db_exec (\<lambda>u. username u = uname) db of
       Inl e \<Rightarrow> (db, Inl e)
     | Inr res \<Rightarrow>
         (case first res of
            None \<Rightarrow> (db, Inr [[Str (''Error: '' @ uname @ '' not found!'')]])
          | Some user \<Rightarrow> (db, Inr [[Obj user]])))"

definition get_all_users :: "store \<Rightarrow> store \<times> outcome" where
  "get_all_users st = with_session st (\<lambda>db.
     case db_exec (\<lambda>u. True) db of
       Inl e \<Rightarrow> (db, Inl e)
     | Inr all_users \<Rightarrow>
         (if all_users = [] then (db, Inr [[Str ''No users found'']])
          else (db, Inr (map (\<lambda>user. [Obj user]) all_users))))"

definition change_email :: "string \<Rightarrow> string \<Rightarrow> store \<Rightarrow> store \<times> outcome" where
  "change_email uname new_email st = with_session st (\<lambda>db.
     case db_exec (\<lambda>u. username u = uname) db of
       Inl e \<Rightarrow> (db, Inl e)
     | Inr res \<Rightarrow>
         (case first res of
            None \<Rightarrow>
              (db, Inr [[Str (''Error: '' @ uname @ '' not found! Unable to update email.'')]])
          | Some user0 \<Rightarrow>
              (let user = user0\<lparr>email := new_email\<rparr>;
                   db1 = db_add user db
               in case db_commit db1 of
                    Inl e \<Rightarrow> (db1, Inl e)
                  | Inr db2 \<Rightarrow>
                      (db2, Inr [[Str (''Success: Updated '' @ username user
                                        @ [CHR 0x27] @ ''s email to '' @ email user)]]))))"

definition create_user :: "string \<Rightarrow> string \<Rightarrow> string \<Rightarrow> store \<Rightarrow> store \<times> outcome" where
  "create_user uname mail pw st = with_session st (\<lambda>db.
     let newuser = \<lparr>user_id = None, username = uname, email = mail, password = pw\<rparr>;
         db1 = db_add newuser db
     in case db_commit db1 of
          Inl IntegrityError \<Rightarrow>
            (db_rollback db1, Inr [[Str ''Error: Username or email already taken!'']])
        | Inl e \<Rightarrow> (db1, Inl e)
        | Inr db2 \<Rightarrow>
            (case db_refresh newuser db2 of
               Inl IntegrityError \<Rightarrow>
                 (db_rollback db2, Inr [[Str ''Error: Username or email already taken!'']])
             | Inl e \<Rightarrow> (db2, Inl e)
             | Inr newuser' \<Rightarrow> (db2, Inr [[Str ''Created: '', Obj newuser']])))"

definition delete_user :: "string \<Rightarrow> store \<Rightarrow> store \<times> outcome" where
  "delete_user uname st = with_session st (\<lambda>db.
     case db_exec (\<lambda>u. username u = uname) db of
       Inl e \<Rightarrow> (db, Inl e)
     | Inr res \<Rightarrow>
         (case first res of
            None \<Rightarrow>
              (db, Inr [[Str (''Error: '' @ uname @ '' not found! Unable to delete user.'')]])
          | Some user \<Rightarrow>
              (let db1 = db_delete user db
               in case db_commit db1 of
                    Inl e \<Rightarrow> (db1, Inl e)
                  | Inr db2 \<Rightarrow> (db2, Inr [[Str (''Success: '' @ uname @ '' deleted'')]]))))"

text \<open>
  \<^verbatim>\<open>column.contains(query)\<close> is rendered by the persistence library as
  \<^verbatim>\<open>column LIKE '%' || :query || '%'\<close>. The query is passed without escaping
  (\<^verbatim>\<open>autoescape\<close> is off unless asked for), so a \<^verbatim>\<open>%\<close> in it stands for any run of
  characters and a \<^verbatim>\<open>_\<close> for any one character. Whether \<^verbatim>\<open>LIKE\<close> folds the case
  of ASCII letters depends on the engine that \<^verbatim>\<open>app/database.py\<close> configures, which is
  not part of the sources at hand: it is the parameter \<open>ci\<close>.
\<close>

definition ascii_lower :: "char \<Rightarrow> char" where
  "ascii_lower c =
     (case map_of (zip ''ABCDEFGHIJKLMNOPQRSTUVWXYZ'' ''abcdefghijklmnopqrstuvwxyz'') c of
        None \<Rightarrow> c
      | Some d \<Rightarrow> d)"

definition like_eq :: "bool \<Rightarrow> char \<Rightarrow> char \<Rightarrow> bool" where
  "like_eq ci a b = (if ci then ascii_lower a = ascii_lower b else a = b)"

fun like :: "bool \<Rightarrow> string \<Rightarrow> string \<Rightarrow> bool" where
  "like ci [] s = (s = [])"
| "like ci (p # ps) [] = (p = CHR ''%'' \<and> like ci ps [])"
| "like ci (p # ps) (c # cs) =
     (if p = CHR ''%'' then like ci ps (c # cs) \<or> like ci (p # ps) cs
      else (p = CHR ''_'' \<or> like_eq ci p c) \<and> like ci ps cs)"

definition contains :: "bool \<Rightarrow> string \<Rightarrow> string \<Rightarrow> bool" where
  "contains ci column query = like ci (''%'' @ query @ ''%'') column"

definition search_users :: "bool \<Rightarrow> string \<Rightarrow> store \<Rightarrow> store \<times> outcome" where
  "search_users ci query st = with_session st (\<lambda>db.
     case db_exec (\<lambda>u. contains ci (username u) query \<or> contains ci (email u) query) db of
       Inl e \<Rightarrow> (db, Inl e)
     | Inr results \<Rightarrow>
         (if results = [] then (db, Inr [[Str (''No matches found for: '' @ query)]])
          else (db, Inr (map (\<lambda>user. [Obj user]) results))))"

text \<open>
  \<^verbatim>\<open>select(User).offset(offset).limit(limit)\<close>: skip \<open>offset\<close> rows of the table, then
  keep at most \<open>limit\<close>. The command validates neither number, and Python's integers
  are unbounded. A number that is a row count the store can hold, from 0 up to but not
  including \<open>2 ^ 63\<close>, is such a count. What any other number does is the engine's own
  behaviour (for a negative one an error on some engines and no bound on others; for one
  of \<open>2 ^ 63\<close> or more an \<^verbatim>\<open>OverflowError\<close> when the argument is bound, before any
  row is read), which is the parameter \<open>native\<close>.
\<close>

definition row_count :: "int \<Rightarrow> bool" where
  "row_count n = (0 \<le> n \<and> n < 2 ^ 63)"

definition db_exec_page ::
  "(int \<Rightarrow> int \<Rightarrow> User list \<Rightarrow> error + User list) \<Rightarrow> int \<Rightarrow> int \<Rightarrow> session
     \<Rightarrow> error + User list" where
  "db_exec_page native offset limit s =
     (case bind s of
        None \<Rightarrow> Inl OperationalError
      | Some rows \<Rightarrow>
          if row_count offset \<and> row_count limit
          then Inr (take (nat limit) (drop (nat offset) rows))
          else native offset limit rows)"

definition list_paginated ::
  "(int \<Rightarrow> int \<Rightarrow> User list \<Rightarrow> error + User list) \<Rightarrow> int \<Rightarrow> int \<Rightarrow> store
     \<Rightarrow> store \<times> outcome" where
  "list_paginated native limit offset st = with_session st (\<lambda>db.
     case db_exec_page native offset limit db of
       Inl e \<Rightarrow> (db, Inl e)
     | Inr results \<Rightarrow>
         (if results = [] then (db, Inr [[Str ''No users found in this range.'']])
          else (db, Inr ([Str ''--- Results (Limit: '', Num limit, Str '', Offset: '',
                          Num offset, Str '') ---'']
                         # map (\<lambda>user. [Obj user]) results))))"

text \<open>
  The invariants of the data model (section 3 of the specification): every row has a
  key, and keys, usernames and emails are each unique across the table.
\<close>

definition wf_rows :: "User list \<Rightarrow> bool" where
  "wf_rows rows =
     ((\<forall>r \<in> set rows. user_id r \<noteq> None) \<and> distinct (map user_id rows)
      \<and> distinct (map username rows) \<and> distinct (map email rows))"

definition wf_store :: "store \<Rightarrow> bool" where
  "wf_store st = (case st of None \<Rightarrow> True | Some rows \<Rightarrow> wf_rows rows)"

subsection \<open>Example rows\<close>

text \<open>The row that \<^verbatim>\<open>initialize\<close> seeds, and three more users for the worked examples.\<close>

abbreviation seed_row :: User where
  "seed_row \<equiv> \<lparr>user_id = Some 1, username = ''bob'', email = ''bob@mail.com'',
                password = ''bobpass''\<rparr>"

abbreviation rick_row :: User where
  "rick_row \<equiv> \<lparr>user_id = Some 2, username = ''rick'', email = ''rick@mail.com'',
                password = ''rickpass''\<rparr>"

abbreviation sally_row :: User where
  "sally_row \<equiv> \<lparr>user_id = Some 3, username = ''sally'', email = ''sally@mail.com'',
                 password = ''sallypass''\<rparr>"

abbreviation pam_row :: User where
  "pam_row \<equiv> \<lparr>user_id = Some 4, username = ''pam'', email = ''pam@mail.com'',
               password = ''pampass''\<rparr>"


section \<open>Properties\<close>

subsection \<open>Auxiliary facts about the store\<close>

lemmas session_defs = with_session_def get_session_def close_def db_exec_def db_add_def
  db_delete_def db_commit_def db_rollback_def db_refresh_def first_def

lemma fold_max_ge_init: "(a::nat) \<le> fold max xs a"
proof (induction xs arbitrary: a)
  case Nil
  show ?case by simp
next
  case (Cons x xs)
  have "a \<le> max x a" by simp
  also have "\<dots> \<le> fold max xs (max x a)" by (rule Cons.IH)
  finally show ?case by simp
qed

lemma fold_max_ge_elem: "x \<in> set xs \<Longrightarrow> (x::nat) \<le> fold max xs a"
proof (induction xs arbitrary: a)
  case Nil
  then show ?case by simp
next
  case (Cons y ys)
  show ?case
  proof (cases "x = y")
    case True
    have "x \<le> max y a" using True by simp
    also have "\<dots> \<le> fold max ys (max y a)" by (rule fold_max_ge_init)
    finally show ?thesis by simp
  next
    case False
    with Cons.prems have "x \<in> set ys" by simp
    then have "x \<le> fold max ys (max y a)" by (rule Cons.IH)
    then show ?thesis by simp
  qed
qed

text \<open>The key given to a new row is the key of no row of the table.\<close>

lemma fresh_id_new: "r \<in> set rows \<Longrightarrow> user_id r \<noteq> Some (fresh_id rows)"
proof
  assume r: "r \<in> set rows" and eq: "user_id r = Some (fresh_id rows)"
  from r have "key_of r \<in> set (map key_of rows)" by simp
  then have "key_of r \<le> fold max (map key_of rows) 0" by (rule fold_max_ge_elem)
  moreover from eq have "key_of r = fresh_id rows" by (simp add: key_of_def)
  ultimately show False by (simp add: fresh_id_def)
qed

text \<open>So an insert is refused exactly when some row holds the username or the email.\<close>

lemma taken_insert:
  "taken rows (u\<lparr>user_id := Some (fresh_id rows)\<rparr>)
     = (\<exists>r \<in> set rows. username r = username u \<or> email r = email u)"
  using fresh_id_new by (auto simp: taken_def)

text \<open>A unique column selects at most one row.\<close>

lemma filter_unique_key:
  assumes "distinct (map f rows)" and "u \<in> set rows"
  shows "filter (\<lambda>r. f r = f u) rows = [u]"
  using assms
proof (induction rows)
  case Nil
  then show ?case by simp
next
  case (Cons a rows)
  show ?case
  proof (cases "a = u")
    case True
    from Cons.prems(1) have "f a \<notin> f ` set rows" by simp
    then have "\<forall>r \<in> set rows. f r \<noteq> f a" by (metis imageI)
    then have "filter (\<lambda>r. f r = f u) rows = []" using True by (simp add: filter_empty_conv)
    then show ?thesis using True by simp
  next
    case False
    with Cons.prems have u: "u \<in> set rows" and d: "distinct (map f rows)" by auto
    from Cons.prems(1) u have "f a \<noteq> f u" by auto
    then show ?thesis using Cons.IH [OF d u] by simp
  qed
qed

lemma key_eq_iff:
  assumes "distinct (map f rows)" and "u \<in> set rows" and "r \<in> set rows"
  shows "f r = f u \<longleftrightarrow> r = u"
  using assms by (auto simp: distinct_map dest: inj_onD)

lemma first_by_username:
  assumes "wf_rows rows" and "u \<in> set rows"
  shows "filter (\<lambda>r. username r = username u) rows = [u]"
  using assms by (simp add: wf_rows_def filter_unique_key)

lemma filter_no_username:
  assumes "\<forall>r \<in> set rows. username r \<noteq> uname"
  shows "filter (\<lambda>r. username r = uname) rows = []"
  using assms by (simp add: filter_empty_conv)

lemma map_by_key:
  assumes "wf_rows rows" and "u \<in> set rows"
  shows "map (\<lambda>r. if user_id r = user_id u then v else r) rows
           = map (\<lambda>r. if r = u then v else r) rows"
proof (rule map_cong [OF refl])
  fix r assume r: "r \<in> set rows"
  from assms(1) have "distinct (map user_id rows)" by (simp add: wf_rows_def)
  then have "user_id r = user_id u \<longleftrightarrow> r = u"
    using assms(2) r by (rule key_eq_iff)
  then show "(if user_id r = user_id u then v else r) = (if r = u then v else r)" by simp
qed

lemma filter_by_key:
  assumes "wf_rows rows" and "u \<in> set rows"
  shows "filter (\<lambda>r. user_id r \<noteq> user_id u) rows = filter (\<lambda>r. r \<noteq> u) rows"
proof (rule filter_cong [OF refl])
  fix r assume r: "r \<in> set rows"
  from assms(1) have "distinct (map user_id rows)" by (simp add: wf_rows_def)
  then have "user_id r = user_id u \<longleftrightarrow> r = u"
    using assms(2) r by (rule key_eq_iff)
  then show "(user_id r \<noteq> user_id u) = (r \<noteq> u)" by simp
qed

text \<open>
  An update of the email of a row of a well-formed table is refused exactly when another
  row holds that email.
\<close>

lemma taken_update:
  assumes "wf_rows rows" and "u \<in> set rows"
  shows "taken rows (u\<lparr>email := mail\<rparr>) = (\<exists>r \<in> set rows. r \<noteq> u \<and> email r = mail)"
proof -
  from assms(1) have di: "distinct (map user_id rows)" and du: "distinct (map username rows)"
    by (simp_all add: wf_rows_def)
  have "(user_id r \<noteq> user_id u \<and> (username r = username u \<or> email r = mail))
            = (r \<noteq> u \<and> email r = mail)" if r: "r \<in> set rows" for r
    using key_eq_iff [OF di assms(2) r] key_eq_iff [OF du assms(2) r] by auto
  then show ?thesis by (simp add: taken_def cong: bex_cong)
qed

text \<open>What \<^verbatim>\<open>change_email\<close> does when the username is found.\<close>

lemma change_email_found:
  assumes "wf_rows rows" and "u \<in> set rows" and "username u = uname"
  shows "change_email uname mail (Some rows) =
           (if \<exists>r \<in> set rows. r \<noteq> u \<and> email r = mail then (Some rows, Inl IntegrityError)
            else (Some (map (\<lambda>r. if r = u then u\<lparr>email := mail\<rparr> else r) rows),
                  Inr [[Str (''Success: Updated '' @ uname @ [CHR 0x27] @ ''s email to ''
                             @ mail)]]))"
proof -
  have f: "filter (\<lambda>r. username r = uname) rows = [u]"
    using first_by_username [OF assms(1,2)] assms(3) by simp
  have k: "user_id u \<noteq> None" using assms(1,2) by (simp add: wf_rows_def)
  from k obtain i where i: "user_id u = Some i" by auto
  have m: "map (\<lambda>r. if user_id r = Some i then u\<lparr>email := mail\<rparr> else r) rows
             = map (\<lambda>r. if r = u then u\<lparr>email := mail\<rparr> else r) rows"
    using map_by_key [OF assms(1,2), of "u\<lparr>email := mail\<rparr>"] i by simp
  show ?thesis
  proof (cases "\<exists>r \<in> set rows. r \<noteq> u \<and> email r = mail")
    case True
    then have "taken rows (u\<lparr>email := mail\<rparr>)" by (simp only: taken_update [OF assms(1,2)])
    then show ?thesis
      using True by (simp add: change_email_def session_defs f i)
  next
    case False
    then have "\<not> taken rows (u\<lparr>email := mail\<rparr>)"
      by (simp only: taken_update [OF assms(1,2)]) simp
    then show ?thesis
      using False assms(3) by (simp add: change_email_def session_defs f i m)
  qed
qed

text \<open>What \<^verbatim>\<open>create_user\<close> does when the username or the email is held already.\<close>

lemma create_user_duplicate:
  assumes "\<exists>r \<in> set rows. username r = uname \<or> email r = mail"
  shows "create_user uname mail pw (Some rows)
           = (Some rows, Inr [[Str ''Error: Username or email already taken!'']])"
proof -
  let ?new = "\<lparr>user_id = None, username = uname, email = mail, password = pw\<rparr>"
  have "taken rows (?new\<lparr>user_id := Some (fresh_id rows)\<rparr>)"
    using assms by (simp only: taken_insert) simp
  then show ?thesis
    by (simp add: create_user_def session_defs)
qed

text \<open>What \<^verbatim>\<open>create_user\<close> does when neither is held.\<close>

lemma create_user_fresh:
  assumes "\<forall>r \<in> set rows. username r \<noteq> uname \<and> email r \<noteq> mail"
  shows "create_user uname mail pw (Some rows)
           = (Some (rows @ [\<lparr>user_id = Some (fresh_id rows), username = uname, email = mail,
                              password = pw\<rparr>]),
              Inr [[Str ''Created: '',
                    Obj \<lparr>user_id = Some (fresh_id rows), username = uname, email = mail,
                         password = pw\<rparr>]])"
proof -
  let ?new = "\<lparr>user_id = None, username = uname, email = mail, password = pw\<rparr>"
  have nt: "\<not> taken rows (?new\<lparr>user_id := Some (fresh_id rows)\<rparr>)"
    using assms by (simp only: taken_insert) simp
  have "x\<lparr>user_id := None\<rparr> \<noteq> ?new" if x: "x \<in> set rows" for x
  proof
    assume "x\<lparr>user_id := None\<rparr> = ?new"
    then have "username (x\<lparr>user_id := None\<rparr>) = username ?new" by (rule arg_cong)
    then show False using assms x by simp
  qed
  then have g: "filter (\<lambda>r. r\<lparr>user_id := None\<rparr> = ?new) rows = []"
    by (simp add: filter_empty_conv)
  show ?thesis
    using nt by (simp add: create_user_def session_defs g)
qed

text \<open>What \<^verbatim>\<open>delete_user\<close> does when the username is found.\<close>

lemma delete_user_found:
  assumes "wf_rows rows" and "u \<in> set rows" and "username u = uname"
  shows "delete_user uname (Some rows)
           = (Some (remove1 u rows), Inr [[Str (''Success: '' @ uname @ '' deleted'')]])"
proof -
  have d: "distinct rows" using assms(1) by (auto simp: wf_rows_def distinct_map)
  have f: "filter (\<lambda>r. username r = uname) rows = [u]"
    using first_by_username [OF assms(1,2)] assms(3) by simp
  have "filter (\<lambda>r. r \<noteq> u) rows = filter ((\<noteq>) u) rows"
    by (rule filter_cong) auto
  then have r: "filter (\<lambda>r. user_id r \<noteq> user_id u) rows = remove1 u rows"
    using filter_by_key [OF assms(1,2)] d
    by (simp add: distinct_remove1_removeAll removeAll_filter_not_eq)
  show ?thesis
    by (simp add: delete_user_def session_defs f r)
qed

text \<open>
  A page whose offset and limit are row counts is cut out of the table in storage order.
\<close>

lemma list_paginated_nonneg:
  assumes "0 \<le> limit" and "limit < 2 ^ 63" and "0 \<le> offset" and "offset < 2 ^ 63"
  shows "list_paginated native limit offset (Some rows) =
           (Some rows,
            Inr (if take (nat limit) (drop (nat offset) rows) = []
                 then [[Str ''No users found in this range.'']]
                 else [Str ''--- Results (Limit: '', Num limit, Str '', Offset: '',
                       Num offset, Str '') ---'']
                      # map (\<lambda>user. [Obj user]) (take (nat limit) (drop (nat offset) rows))))"
  using assms by (simp add: list_paginated_def db_exec_page_def row_count_def session_defs)

subsection \<open>The invariants are kept\<close>

text \<open>
  The table that \<^verbatim>\<open>initialize\<close> leaves is well formed, and the three commands that
  write keep a well-formed table well formed (the four others change nothing), so the
  tables the commands meet are the well-formed ones.
\<close>

lemma wf_rows_append:
  assumes "wf_rows rows" and "\<forall>r \<in> set rows. username r \<noteq> uname \<and> email r \<noteq> mail"
  shows "wf_rows (rows @ [\<lparr>user_id = Some (fresh_id rows), username = uname, email = mail,
                           password = pw\<rparr>])"
proof -
  have "Some (fresh_id rows) \<notin> user_id ` set rows"
    using fresh_id_new [of _ rows] by force
  moreover have "uname \<notin> username ` set rows" and "mail \<notin> email ` set rows"
    using assms(2) by auto
  ultimately show ?thesis using assms(1) by (simp add: wf_rows_def)
qed

lemma distinct_map_update:
  assumes "distinct (map f rows)" and "\<forall>r \<in> set rows. r \<noteq> u \<longrightarrow> f r \<noteq> v"
  shows "distinct (map (\<lambda>r. if r = u then v else f r) rows)"
  using assms
proof (induction rows)
  case Nil
  show ?case by simp
next
  case (Cons a rows)
  then have IH: "distinct (map (\<lambda>r. if r = u then v else f r) rows)" by simp
  from Cons.prems(1) have na: "\<forall>r \<in> set rows. f r \<noteq> f a" by (metis distinct.simps(2) imageI list.simps(9) set_map)
  have "(if a = u then v else f a) \<noteq> (if r = u then v else f r)" if r: "r \<in> set rows" for r
    using na r Cons.prems(2) by (cases "a = u"; cases "r = u") auto
  then have "(if a = u then v else f a) \<notin> (\<lambda>r. if r = u then v else f r) ` set rows"
    by blast
  with IH show ?case by simp
qed

lemma wf_rows_update:
  assumes "wf_rows rows" and "u \<in> set rows"
    and "\<not> (\<exists>r \<in> set rows. r \<noteq> u \<and> email r = mail)"
  shows "wf_rows (map (\<lambda>r. if r = u then u\<lparr>email := mail\<rparr> else r) rows)"
proof -
  let ?g = "\<lambda>r. if r = u then u\<lparr>email := mail\<rparr> else r"
  have i: "map user_id (map ?g rows) = map user_id rows"
    and n: "map username (map ?g rows) = map username rows"
    by (simp_all add: comp_def if_distrib [of user_id] if_distrib [of username] cong: if_cong)
  have e: "map email (map ?g rows) = map (\<lambda>r. if r = u then mail else email r) rows"
    by (simp add: comp_def if_distrib [of email] cong: if_cong)
  have "distinct (map (\<lambda>r. if r = u then mail else email r) rows)"
    using assms(1,3) by (intro distinct_map_update) (auto simp: wf_rows_def)
  moreover have "\<forall>r \<in> set (map ?g rows). user_id r \<noteq> None"
    using assms(1,2) by (auto simp: wf_rows_def)
  ultimately show ?thesis
    using assms(1) unfolding wf_rows_def i n e by simp
qed

lemma distinct_map_remove1: "distinct (map f xs) \<Longrightarrow> distinct (map f (remove1 u xs))"
proof (induction xs)
  case Nil
  show ?case by simp
next
  case (Cons a xs)
  have "set (remove1 u xs) \<subseteq> set xs" by (rule set_remove1_subset)
  then have "f ` set (remove1 u xs) \<subseteq> f ` set xs" by (rule image_mono)
  with Cons show ?case by auto
qed

lemma wf_rows_remove1:
  assumes "wf_rows rows"
  shows "wf_rows (remove1 u rows)"
proof -
  have "\<forall>r \<in> set (remove1 u rows). user_id r \<noteq> None"
    using assms set_remove1_subset [of u rows] by (auto simp: wf_rows_def)
  with assms show ?thesis by (simp add: wf_rows_def distinct_map_remove1)
qed

lemma initialize_wf: "wf_store (fst (initialize st))"
  by (simp add: wf_store_def wf_rows_def initialize_def session_defs drop_all_def
        create_db_and_tables_def bob_def fresh_id_def taken_def)

lemma create_user_wf:
  assumes "wf_rows rows"
  shows "wf_store (fst (create_user uname mail pw (Some rows)))"
proof (cases "\<exists>r \<in> set rows. username r = uname \<or> email r = mail")
  case True
  then show ?thesis using assms by (simp add: create_user_duplicate wf_store_def)
next
  case False
  then have f: "\<forall>r \<in> set rows. username r \<noteq> uname \<and> email r \<noteq> mail" by simp
  show ?thesis
    using wf_rows_append [OF assms f] by (simp add: create_user_fresh [OF f] wf_store_def)
qed

lemma change_email_wf:
  assumes "wf_rows rows"
  shows "wf_store (fst (change_email uname mail (Some rows)))"
proof (cases "\<exists>u \<in> set rows. username u = uname")
  case False
  then have "\<forall>r \<in> set rows. username r \<noteq> uname" by simp
  then have "filter (\<lambda>r. username r = uname) rows = []" by (rule filter_no_username)
  then show ?thesis using assms by (simp add: change_email_def session_defs wf_store_def)
next
  case True
  then obtain u where u: "u \<in> set rows" "username u = uname" by auto
  show ?thesis
  proof (cases "\<exists>r \<in> set rows. r \<noteq> u \<and> email r = mail")
    case True
    then show ?thesis
      using assms by (simp add: change_email_found [OF assms u] wf_store_def)
  next
    case False
    with change_email_found [OF assms u, of mail]
    have "fst (change_email uname mail (Some rows))
            = Some (map (\<lambda>r. if r = u then u\<lparr>email := mail\<rparr> else r) rows)"
      by (simp only: if_False fst_conv)
    then show ?thesis
      using wf_rows_update [OF assms u(1) False] by (simp add: wf_store_def)
  qed
qed

lemma delete_user_wf:
  assumes "wf_rows rows"
  shows "wf_store (fst (delete_user uname (Some rows)))"
proof (cases "\<exists>u \<in> set rows. username u = uname")
  case False
  then have "\<forall>r \<in> set rows. username r \<noteq> uname" by simp
  then have "filter (\<lambda>r. username r = uname) rows = []" by (rule filter_no_username)
  then show ?thesis using assms by (simp add: delete_user_def session_defs wf_store_def)
next
  case True
  then obtain u where u: "u \<in> set rows" "username u = uname" by auto
  show ?thesis
    using wf_rows_remove1 [OF assms, of u]
    by (simp add: delete_user_found [OF assms u] wf_store_def)
qed

subsection \<open>initialize\<close>

text \<open>
  Claim C1. After \<^verbatim>\<open>initialize\<close> the store holds exactly one row, with username
  \<^verbatim>\<open>bob\<close>, email \<^verbatim>\<open>bob@mail.com\<close> and password \<^verbatim>\<open>bobpass\<close>, whatever the store
  held before (rows, no rows, or no table at all); the command prints its confirmation.
\<close>

theorem initialize_seeds_bob:
  "initialize st =
     (Some [\<lparr>user_id = Some 1, username = ''bob'', email = ''bob@mail.com'',
              password = ''bobpass''\<rparr>],
      Inr [[Str ''Database Initialized'']])"
  by (simp add: initialize_def session_defs drop_all_def create_db_and_tables_def bob_def
        fresh_id_def taken_def)

theorem initialize_seeds_bob_witness:
  "initialize (Some [rick_row, sally_row]) =
     (Some [\<lparr>user_id = Some 1, username = ''bob'', email = ''bob@mail.com'',
              password = ''bobpass''\<rparr>],
      Inr [[Str ''Database Initialized'']])"
  by (rule initialize_seeds_bob)

subsection \<open>create_user\<close>

text \<open>
  Claim C2. When no row holds the username and no row holds the email,
  \<^verbatim>\<open>create_user\<close> appends the row and \<^verbatim>\<open>get_user\<close> with that username, run on
  the store that \<^verbatim>\<open>create_user\<close> left, prints a record with the username, the email
  and the password that were given.
\<close>

theorem create_then_get_user:
  assumes "\<forall>r \<in> set rows. username r \<noteq> uname \<and> email r \<noteq> mail"
  shows "create_user uname mail pw (Some rows)
           = (Some (rows @ [\<lparr>user_id = Some (fresh_id rows), username = uname, email = mail,
                              password = pw\<rparr>]),
              Inr [[Str ''Created: '',
                    Obj \<lparr>user_id = Some (fresh_id rows), username = uname, email = mail,
                         password = pw\<rparr>]])
         \<and> snd (get_user uname (fst (create_user uname mail pw (Some rows))))
           = Inr [[Obj \<lparr>user_id = Some (fresh_id rows), username = uname, email = mail,
                         password = pw\<rparr>]]"
proof -
  let ?u = "\<lparr>user_id = Some (fresh_id rows), username = uname, email = mail, password = pw\<rparr>"
  have c: "create_user uname mail pw (Some rows)
             = (Some (rows @ [?u]), Inr [[Str ''Created: '', Obj ?u]])"
    using assms by (rule create_user_fresh)
  have f: "filter (\<lambda>r. username r = uname) rows = []"
    using assms by (simp add: filter_no_username)
  have "get_user uname (Some (rows @ [?u])) = (Some (rows @ [?u]), Inr [[Obj ?u]])"
    by (simp add: get_user_def session_defs f)
  with c show ?thesis by simp
qed

theorem create_then_get_user_witness:
  "create_user ''rick'' ''rick@mail.com'' ''rickpass'' (Some [seed_row])
     = (Some [seed_row, rick_row], Inr [[Str ''Created: '', Obj rick_row]])
   \<and> snd (get_user ''rick''
            (fst (create_user ''rick'' ''rick@mail.com'' ''rickpass'' (Some [seed_row]))))
     = Inr [[Obj rick_row]]"
proof -
  have h: "\<forall>r \<in> set [seed_row]. username r \<noteq> ''rick'' \<and> email r \<noteq> ''rick@mail.com''"
    by simp
  have k: "fresh_id [seed_row] = 2" by (simp add: fresh_id_def key_of_def)
  note t = create_then_get_user [OF h, of "''rickpass''", unfolded k]
  have a: "create_user ''rick'' ''rick@mail.com'' ''rickpass'' (Some [seed_row])
             = (Some [seed_row, rick_row], Inr [[Str ''Created: '', Obj rick_row]])"
    using t [THEN conjunct1] by simp
  have b: "snd (get_user ''rick''
                 (fst (create_user ''rick'' ''rick@mail.com'' ''rickpass'' (Some [seed_row]))))
             = Inr [[Obj rick_row]]"
    using t [THEN conjunct2] by simp
  from a b show ?thesis by (rule conjI)
qed

text \<open>
  Claim C3. When the username or the email of a \<^verbatim>\<open>create_user\<close> call is already held
  by some row, the table is left exactly as it was, the command prints the taken-field
  message, and it ends normally: the outcome is printed output, not an exception.
\<close>

theorem create_user_taken:
  assumes "\<exists>r \<in> set rows. username r = uname \<or> email r = mail"
  shows "create_user uname mail pw (Some rows)
           = (Some rows, Inr [[Str ''Error: Username or email already taken!'']])"
  using assms by (rule create_user_duplicate)

theorem create_user_taken_witness:
  "create_user ''bob'' ''x@x.com'' ''pw'' (Some [seed_row])
     = (Some [seed_row], Inr [[Str ''Error: Username or email already taken!'']])"
proof -
  have h: "\<exists>r \<in> set [seed_row]. username r = ''bob'' \<or> email r = ''x@x.com''"
    by simp
  show ?thesis using create_user_taken [OF h, of "''pw''"] by simp
qed

subsection \<open>delete_user\<close>

text \<open>
  Claim C5. On a well-formed table that has a row \<open>u\<close> with the given username,
  \<^verbatim>\<open>delete_user\<close> removes that row and no other (the table afterwards is the table
  before without \<open>u\<close>, one row shorter), and \<^verbatim>\<open>get_user\<close> for that username then
  reports not-found.
\<close>

theorem delete_user_removes_row:
  assumes "wf_rows rows" and "u \<in> set rows" and "username u = uname"
  shows "delete_user uname (Some rows)
           = (Some (remove1 u rows), Inr [[Str (''Success: '' @ uname @ '' deleted'')]])
         \<and> Suc (length (remove1 u rows)) = length rows
         \<and> set (remove1 u rows) = set rows - {u}
         \<and> get_user uname (Some (remove1 u rows))
             = (Some (remove1 u rows), Inr [[Str (''Error: '' @ uname @ '' not found!'')]])"
proof -
  have d: "distinct rows" using assms(1) by (auto simp: wf_rows_def distinct_map)
  have del: "delete_user uname (Some rows)
           = (Some (remove1 u rows), Inr [[Str (''Success: '' @ uname @ '' deleted'')]])"
    using assms by (rule delete_user_found)
  have len: "Suc (length (remove1 u rows)) = length rows"
    using assms(2) by (simp add: length_remove1) (cases rows; simp)
  have st: "set (remove1 u rows) = set rows - {u}" using d by simp
  have "\<forall>r \<in> set (remove1 u rows). username r \<noteq> uname"
  proof
    fix r assume "r \<in> set (remove1 u rows)"
    with st have "r \<in> set rows" "r \<noteq> u" by auto
    moreover from assms(1) have "distinct (map username rows)" by (simp add: wf_rows_def)
    ultimately show "username r \<noteq> uname"
      using key_eq_iff [of username rows u r] assms(2,3) by simp
  qed
  then have "filter (\<lambda>r. username r = uname) (remove1 u rows) = []"
    by (rule filter_no_username)
  then have "get_user uname (Some (remove1 u rows))
             = (Some (remove1 u rows), Inr [[Str (''Error: '' @ uname @ '' not found!'')]])"
    by (simp add: get_user_def session_defs)
  with del len st show ?thesis by simp
qed

theorem delete_user_removes_row_witness:
  "delete_user ''bob'' (Some [seed_row, rick_row])
     = (Some [rick_row], Inr [[Str ''Success: bob deleted'']])
   \<and> get_user ''bob'' (Some [rick_row])
     = (Some [rick_row], Inr [[Str ''Error: bob not found!'']])"
  using delete_user_removes_row [of "[seed_row, rick_row]" seed_row "''bob''"]
  by (simp add: wf_rows_def)

subsection \<open>change_email\<close>

text \<open>
  Claim C6. When no row has the given username, \<^verbatim>\<open>change_email\<close> writes nothing: the
  table afterwards is the table before, row for row, and the not-found message is
  printed.
\<close>

theorem change_email_not_found:
  assumes "\<forall>r \<in> set rows. username r \<noteq> uname"
  shows "change_email uname new_email (Some rows)
           = (Some rows,
              Inr [[Str (''Error: '' @ uname @ '' not found! Unable to update email.'')]])"
  using filter_no_username [OF assms] by (simp add: change_email_def session_defs)

theorem change_email_not_found_witness:
  "change_email ''rick'' ''rick@mail.com'' (Some [seed_row])
     = (Some [seed_row], Inr [[Str ''Error: rick not found! Unable to update email.'']])"
  using change_email_not_found [of "[seed_row]" "''rick''" "''rick@mail.com''"]
  by simp

text \<open>
  Claim C7. On a well-formed table that has a row \<open>u\<close> with the given username, a
  \<^verbatim>\<open>change_email\<close> that succeeds replaces \<open>u\<close> by \<open>u\<close> with the new email and
  leaves every other row, and the order of the rows, as they were; the key, the username
  and the password of the row are those of \<open>u\<close>.
\<close>

theorem change_email_frame:
  assumes "wf_rows rows" and "u \<in> set rows" and "username u = uname"
    and "snd (change_email uname new_email (Some rows)) = Inr out"
  shows "fst (change_email uname new_email (Some rows))
           = Some (map (\<lambda>r. if r = u then u\<lparr>email := new_email\<rparr> else r) rows)
         \<and> user_id (u\<lparr>email := new_email\<rparr>) = user_id u
         \<and> username (u\<lparr>email := new_email\<rparr>) = username u
         \<and> password (u\<lparr>email := new_email\<rparr>) = password u
         \<and> email (u\<lparr>email := new_email\<rparr>) = new_email"
proof (cases "\<exists>r \<in> set rows. r \<noteq> u \<and> email r = new_email")
  case True
  then have "snd (change_email uname new_email (Some rows)) = Inl IntegrityError"
    by (simp add: change_email_found [OF assms(1-3)])
  with assms(4) show ?thesis by simp
next
  case False
  with change_email_found [OF assms(1-3), of new_email]
  have "change_email uname new_email (Some rows)
          = (Some (map (\<lambda>r. if r = u then u\<lparr>email := new_email\<rparr> else r) rows),
             Inr [[Str (''Success: Updated '' @ uname @ [CHR 0x27] @ ''s email to ''
                        @ new_email)]])"
    by (simp only: if_False)
  then show ?thesis by simp
qed

theorem change_email_frame_witness:
  "fst (change_email ''rick'' ''r@new.org'' (Some [seed_row, rick_row, sally_row]))
     = Some [seed_row, rick_row\<lparr>email := ''r@new.org''\<rparr>, sally_row]"
proof -
  have wf: "wf_rows [seed_row, rick_row, sally_row]" by (simp add: wf_rows_def)
  have ok: "snd (change_email ''rick'' ''r@new.org'' (Some [seed_row, rick_row, sally_row]))
              = Inr [[Str (''Success: Updated rick'' @ [CHR 0x27] @ ''s email to r@new.org'')]]"
    by (simp add: change_email_def session_defs taken_def)
  show ?thesis
    using change_email_frame [OF wf _ _ ok, of rick_row] by simp
qed

text \<open>
  Claim C9. On a well-formed table where \<open>u\<close> has the given username and another row
  holds the new email, \<^verbatim>\<open>change_email\<close> ends with the \<^verbatim>\<open>IntegrityError\<close> uncaught
  (and the table unchanged), whereas \<^verbatim>\<open>create_user\<close> with that same email on that same
  table catches it and prints the taken-field message.
\<close>

theorem change_email_duplicate_propagates:
  assumes "wf_rows rows" and "u \<in> set rows" and "username u = uname"
    and "r \<in> set rows" and "r \<noteq> u" and "email r = new_email"
  shows "change_email uname new_email (Some rows) = (Some rows, Inl IntegrityError)
         \<and> create_user uname' new_email pw (Some rows)
             = (Some rows, Inr [[Str ''Error: Username or email already taken!'']])"
proof -
  from assms(4-6) have "\<exists>r \<in> set rows. r \<noteq> u \<and> email r = new_email" by auto
  then have "change_email uname new_email (Some rows) = (Some rows, Inl IntegrityError)"
    by (simp add: change_email_found [OF assms(1-3)])
  moreover from assms(4,6) have "\<exists>r \<in> set rows. username r = uname' \<or> email r = new_email"
    by auto
  then have "create_user uname' new_email pw (Some rows)
             = (Some rows, Inr [[Str ''Error: Username or email already taken!'']])"
    by (rule create_user_duplicate)
  ultimately show ?thesis by simp
qed

theorem change_email_duplicate_propagates_witness:
  "change_email ''rick'' ''bob@mail.com'' (Some [seed_row, rick_row])
     = (Some [seed_row, rick_row], Inl IntegrityError)
   \<and> create_user ''sally'' ''bob@mail.com'' ''sallypass'' (Some [seed_row, rick_row])
     = (Some [seed_row, rick_row], Inr [[Str ''Error: Username or email already taken!'']])"
proof -
  have wf: "wf_rows [seed_row, rick_row]" by (simp add: wf_rows_def)
  show ?thesis
    using change_email_duplicate_propagates [OF wf, of rick_row "''rick''" seed_row
        "''bob@mail.com''" "''sally''" "''sallypass''"]
    by simp
qed

subsection \<open>search_users\<close>

text \<open>
  A pattern that starts with \<^verbatim>\<open>%\<close> matches a string when the rest of the pattern
  matches one of its suffixes; a pattern without wildcards followed by \<^verbatim>\<open>%\<close>
  matches, on an engine that compares characters exactly, the strings it is a prefix of.
  So for a query without \<^verbatim>\<open>%\<close> and \<^verbatim>\<open>_\<close>, on such an engine,
  \<^verbatim>\<open>contains\<close> is the substring test.
\<close>

lemma like_percent [simp]: "like ci ''%'' s"
  by (induction s) simp_all

lemma like_prefix:
  assumes "CHR ''%'' \<notin> set q" and "CHR ''_'' \<notin> set q"
  shows "like False (q @ ''%'') s \<longleftrightarrow> prefix q s"
  using assms
proof (induction q arbitrary: s)
  case Nil
  show ?case by simp
next
  case (Cons a q)
  then have IH: "\<And>t. like False (q @ ''%'') t \<longleftrightarrow> prefix q t" by simp
  from Cons.prems have a: "a \<noteq> CHR ''%''" "a \<noteq> CHR ''_''" by auto
  show ?case
  proof (cases s)
    case Nil
    with a show ?thesis by simp
  next
    case (Cons c t)
    with a IH show ?thesis by (simp add: like_eq_def eq_commute)
  qed
qed

lemma like_any_then:
  "like ci (CHR ''%'' # p) s \<longleftrightarrow> (\<exists>t. suffix t s \<and> like ci p t)"
proof (induction s)
  case Nil
  show ?case by (cases p) auto
next
  case (Cons c s)
  have "like ci (CHR ''%'' # p) (c # s) \<longleftrightarrow> like ci p (c # s) \<or> like ci (CHR ''%'' # p) s"
    by simp
  also have "\<dots> \<longleftrightarrow> like ci p (c # s) \<or> (\<exists>t. suffix t s \<and> like ci p t)"
    by (simp only: Cons.IH)
  also have "\<dots> \<longleftrightarrow> (\<exists>t. suffix t (c # s) \<and> like ci p t)"
    by (auto simp: suffix_Cons)
  finally show ?case .
qed

lemma contains_is_sublist:
  assumes "CHR ''%'' \<notin> set query" and "CHR ''_'' \<notin> set query"
  shows "contains False column query \<longleftrightarrow> sublist query column"
proof -
  have "contains False column query
          \<longleftrightarrow> (\<exists>t. suffix t column \<and> like False (query @ ''%'') t)"
    by (simp add: contains_def like_any_then)
  also have "\<dots> \<longleftrightarrow> (\<exists>t. suffix t column \<and> prefix query t)"
    by (simp only: like_prefix [OF assms])
  also have "\<dots> \<longleftrightarrow> sublist query column"
    by (simp only: sublist_altdef')
  finally show ?thesis .
qed

text \<open>On an engine whose \<^verbatim>\<open>LIKE\<close> folds ASCII case, a row is returned that matches
  only when case is ignored; on an engine that compares exactly it is not.\<close>

lemma search_users_case_folding:
  "search_users True ''BOB'' (Some [seed_row]) = (Some [seed_row], Inr [[Obj seed_row]])"
  by (simp add: search_users_def session_defs contains_def like_eq_def ascii_lower_def)

lemma search_users_case_exact:
  "search_users False ''BOB'' (Some [seed_row])
     = (Some [seed_row], Inr [[Str ''No matches found for: BOB'']])"
  by (simp add: search_users_def session_defs contains_def like_eq_def)

text \<open>
  Claim C4 says that \<^verbatim>\<open>search_users\<close> returns exactly the rows in which the query
  occurs as a case-sensitive substring of the username or of the email. On the table that
  \<^verbatim>\<open>initialize\<close> leaves, the query \<^verbatim>\<open>%\<close> returns the row of \<^verbatim>\<open>bob\<close>, on every
  engine, although \<^verbatim>\<open>%\<close> occurs neither in \<^verbatim>\<open>bob\<close> nor in \<^verbatim>\<open>bob@mail.com\<close>:
  the query reaches \<^verbatim>\<open>LIKE\<close> unescaped.
\<close>

theorem search_users_wildcard:
  "search_users ci ''%'' (Some [seed_row]) = (Some [seed_row], Inr [[Obj seed_row]])
   \<and> \<not> sublist ''%'' (username seed_row) \<and> \<not> sublist ''%'' (email seed_row)"
proof -
  have "contains ci ''bob'' ''%''" by (simp add: contains_def)
  then have "search_users ci ''%'' (Some [seed_row]) = (Some [seed_row], Inr [[Obj seed_row]])"
    by (simp add: search_users_def session_defs)
  moreover have "\<not> sublist ''%'' ''bob''" by code_simp
  moreover have "\<not> sublist ''%'' ''bob@mail.com''" by code_simp
  ultimately show ?thesis by simp
qed

subsection \<open>list_paginated\<close>

text \<open>
  A limit or an offset that is not a row count of the store is handed to the engine, and
  the command prints what the engine returns or ends with the exception it raises: with
  an engine that refuses the argument, \<^verbatim>\<open>--limit 9223372036854775808\<close> ends with
  \<^verbatim>\<open>OverflowError\<close>, nothing printed and the store as it was.
\<close>

lemma list_paginated_native:
  assumes "\<not> (row_count offset \<and> row_count limit)"
  shows "list_paginated native limit offset (Some rows) =
           (Some rows,
            case native offset limit rows of
              Inl e \<Rightarrow> Inl e
            | Inr results \<Rightarrow>
                Inr (if results = [] then [[Str ''No users found in this range.'']]
                     else [Str ''--- Results (Limit: '', Num limit, Str '', Offset: '',
                           Num offset, Str '') ---'']
                          # map (\<lambda>user. [Obj user]) results))"
proof -
  have e: "db_exec_page native offset limit \<lparr>bind = Some rows, pending = []\<rparr>
             = native offset limit rows"
    using assms by (auto simp: db_exec_page_def)
  show ?thesis
    by (simp add: list_paginated_def with_session_def get_session_def close_def e
          split: sum.split)
qed

lemma list_paginated_overflow:
  "list_paginated (\<lambda>offset limit rows. Inl OverflowError) 9223372036854775808 0
       (Some [seed_row])
     = (Some [seed_row], Inl OverflowError)"
  by (simp add: list_paginated_def db_exec_page_def row_count_def session_defs)

text \<open>
  Claim C8. For a limit and an offset that are row counts of the store (from 0 up to but
  not including \<open>2 ^ 63\<close>), \<^verbatim>\<open>list_paginated\<close> skips \<open>offset\<close> rows of the table
  and prints the next rows, at most \<open>limit\<close> of them (what any other number does is the
  engine's own behaviour, outside the command). On a well-formed table of four rows, limit
  2 at offset 0 prints the first two rows and limit 2 at offset 2 the last two: two pages
  of two rows each, with no row in common, that together are the four rows.
\<close>

theorem list_paginated_pages:
  "(0 \<le> limit \<and> limit < 2 ^ 63 \<and> 0 \<le> offset \<and> offset < 2 ^ 63 \<longrightarrow>
      list_paginated native limit offset (Some rows) =
        (Some rows,
         Inr (if take (nat limit) (drop (nat offset) rows) = []
              then [[Str ''No users found in this range.'']]
              else [Str ''--- Results (Limit: '', Num limit, Str '', Offset: '',
                    Num offset, Str '') ---'']
                   # map (\<lambda>user. [Obj user]) (take (nat limit) (drop (nat offset) rows))))
      \<and> int (length (take (nat limit) (drop (nat offset) rows))) \<le> limit)
   \<and> (wf_rows rows \<and> length rows = 4 \<longrightarrow>
      list_paginated native 2 0 (Some rows) =
        (Some rows,
         Inr ([Str ''--- Results (Limit: '', Num 2, Str '', Offset: '', Num 0,
               Str '') ---''] # map (\<lambda>user. [Obj user]) (take 2 rows)))
      \<and> list_paginated native 2 2 (Some rows) =
        (Some rows,
         Inr ([Str ''--- Results (Limit: '', Num 2, Str '', Offset: '', Num 2,
               Str '') ---''] # map (\<lambda>user. [Obj user]) (drop 2 rows)))
      \<and> length (take 2 rows) = 2 \<and> length (drop 2 rows) = 2
      \<and> set (take 2 rows) \<inter> set (drop 2 rows) = {}
      \<and> set (take 2 rows) \<union> set (drop 2 rows) = set rows)"
proof (intro conjI impI)
  assume "0 \<le> limit \<and> limit < 2 ^ 63 \<and> 0 \<le> offset \<and> offset < 2 ^ 63"
  then have l: "0 \<le> limit" and lb: "limit < 2 ^ 63"
    and o: "0 \<le> offset" and ob: "offset < 2 ^ 63"
    by simp_all
  from l lb o ob show "list_paginated native limit offset (Some rows) =
        (Some rows,
         Inr (if take (nat limit) (drop (nat offset) rows) = []
              then [[Str ''No users found in this range.'']]
              else [Str ''--- Results (Limit: '', Num limit, Str '', Offset: '',
                    Num offset, Str '') ---'']
                   # map (\<lambda>user. [Obj user]) (take (nat limit) (drop (nat offset) rows))))"
    by (rule list_paginated_nonneg)
  show "int (length (take (nat limit) (drop (nat offset) rows))) \<le> limit"
    using l by simp
next
  assume a: "wf_rows rows \<and> length rows = 4"
  then have d: "distinct rows" by (auto simp: wf_rows_def distinct_map)
  from a have len: "length rows = 4" by simp
  have p2: "take 2 (drop 2 rows) = drop 2 rows" using len by simp
  show l1: "length (take 2 rows) = 2" and l2: "length (drop 2 rows) = 2"
    using len by simp_all
  have n1: "take 2 rows \<noteq> []" and n2: "drop 2 rows \<noteq> []" using l1 l2 by auto
  from d have "distinct (take 2 rows @ drop 2 rows)" by simp
  then show "set (take 2 rows) \<inter> set (drop 2 rows) = {}" by (simp only: distinct_append)
  show "set (take 2 rows) \<union> set (drop 2 rows) = set rows"
    using set_append [of "take 2 rows" "drop 2 rows"] by simp
  show "list_paginated native 2 0 (Some rows) =
        (Some rows,
         Inr ([Str ''--- Results (Limit: '', Num 2, Str '', Offset: '', Num 0,
               Str '') ---''] # map (\<lambda>user. [Obj user]) (take 2 rows)))"
    using n1 list_paginated_nonneg [of 2 0 native rows] by simp
  show "list_paginated native 2 2 (Some rows) =
        (Some rows,
         Inr ([Str ''--- Results (Limit: '', Num 2, Str '', Offset: '', Num 2,
               Str '') ---''] # map (\<lambda>user. [Obj user]) (drop 2 rows)))"
    using n2 p2 list_paginated_nonneg [of 2 2 native rows] by simp
qed

theorem list_paginated_pages_witness:
  "list_paginated (\<lambda>offset limit rows. Inl OperationalError) 1 1
       (Some [seed_row, rick_row, sally_row, pam_row])
     = (Some [seed_row, rick_row, sally_row, pam_row],
        Inr [[Str ''--- Results (Limit: '', Num 1, Str '', Offset: '', Num 1, Str '') ---''],
             [Obj rick_row]])
   \<and> list_paginated (\<lambda>offset limit rows. Inl OperationalError) 2 0
       (Some [seed_row, rick_row, sally_row, pam_row])
     = (Some [seed_row, rick_row, sally_row, pam_row],
        Inr [[Str ''--- Results (Limit: '', Num 2, Str '', Offset: '', Num 0, Str '') ---''],
             [Obj seed_row], [Obj rick_row]])
   \<and> list_paginated (\<lambda>offset limit rows. Inl OperationalError) 2 2
       (Some [seed_row, rick_row, sally_row, pam_row])
     = (Some [seed_row, rick_row, sally_row, pam_row],
        Inr [[Str ''--- Results (Limit: '', Num 2, Str '', Offset: '', Num 2, Str '') ---''],
             [Obj sally_row], [Obj pam_row]])"
proof -
  have wf: "wf_rows [seed_row, rick_row, sally_row, pam_row]" by (simp add: wf_rows_def)
  note t = list_paginated_pages [where limit = 1 and offset = 1
      and rows = "[seed_row, rick_row, sally_row, pam_row]"
      and native = "\<lambda>offset limit rows. Inl OperationalError"]
  have g: "(0::int) \<le> 1 \<and> (1::int) < 2 ^ 63 \<and> (0::int) \<le> 1 \<and> (1::int) < 2 ^ 63" by simp
  have s: "wf_rows [seed_row, rick_row, sally_row, pam_row]
           \<and> length [seed_row, rick_row, sally_row, pam_row] = 4"
    using wf by simp
  from t [THEN conjunct1, rule_format, OF g] t [THEN conjunct2, rule_format, OF s]
  show ?thesis by (simp add: numeral_2_eq_2)
qed

subsection \<open>The read-only commands\<close>

text \<open>
  Claim C10. \<^verbatim>\<open>get_user\<close>, \<^verbatim>\<open>get_all_users\<close>, \<^verbatim>\<open>search_users\<close> and
  \<^verbatim>\<open>list_paginated\<close> leave the store as they found it, for every argument and every
  store (also one without a table, where the query raises).
\<close>

theorem read_only_commands_keep_store:
  "fst (get_user uname st) = st \<and> fst (get_all_users st) = st
   \<and> fst (search_users ci query st) = st
   \<and> fst (list_paginated native limit offset st) = st"
  by (simp add: get_user_def get_all_users_def search_users_def list_paginated_def
        db_exec_page_def session_defs split: option.split sum.split)

theorem read_only_commands_keep_store_witness:
  "fst (get_user ''bob'' (Some [seed_row])) = Some [seed_row]
   \<and> fst (get_all_users (Some [seed_row])) = Some [seed_row]
   \<and> fst (search_users False ''ob'' (Some [seed_row])) = Some [seed_row]
   \<and> fst (list_paginated (\<lambda>offset limit rows. Inr rows) (- 1) 0 (Some [seed_row]))
       = Some [seed_row]"
  by (rule read_only_commands_keep_store)

end
